theory Spec2Isabelle
  imports Complex_Main "HOL-Library.Log_Nat"
begin

section \<open>The page that static/js/main.js runs on\<close>

text \<open>
  The script is the body of one DOMContentLoaded handler. Everything it touches lives in
  the browser: elements, their style and attributes, registered listeners, the network,
  the alert box. The page is therefore a record, an element is a reference (its index in
  document order) into the list of elements, and every function of the script takes the
  page and returns the page it leaves behind.
\<close>

type_synonym ref = nat

datatype File = File string

text \<open>
  A star is a \<open>div\<close> the script creates. Each style property holds the number in the
  string the script assigns to it; the unit is fixed by the property: percent for \<open>top\<close>
  and \<open>left\<close>, pixels for \<open>width\<close> and \<open>height\<close>, seconds for the two animation
  times.
\<close>

record star =
  className :: string
  style_top :: rat
  style_left :: rat
  style_width :: rat
  style_height :: rat
  style_animationDelay :: rat
  style_animationDuration :: rat

record element =
  tag :: string
  ident :: string
  parent :: "ref option"
  classList :: "string list"
  style_display :: string
  src :: string
  paused :: bool
  etype :: string
  files :: "File list"
  dataset_uploadUrl :: "string option"
  appended :: "star list"

text \<open>
  A listener is a closure of \<open>setupDropZone\<close>: it holds the references and the URL that
  the arrow function captured.
\<close>

datatype listener =
    ZoneClick ref
  | ZoneDragover ref
  | ZoneDragleave ref
  | ZoneDrop ref ref string
  | InputChange ref string

record registration =
  reg_target :: ref
  reg_type :: string
  reg_listener :: listener

record request =
  req_url :: string
  req_method :: string
  req_body :: "(string \<times> File) list"

record page =
  elements :: "element list"
  listeners :: "registration list"
  requests :: "request list"
  dialogs :: "ref list"
  console :: "string list"
  alerts :: "string list"
  reloads :: nat

subsection \<open>The DOM operations the script calls\<close>

fun first_index :: "('a \<Rightarrow> bool) \<Rightarrow> 'a list \<Rightarrow> nat option" where
  "first_index P [] = None"
| "first_index P (x # xs) = (if P x then Some 0 else map_option Suc (first_index P xs))"

text \<open>\<open>document.getElementById\<close>: the first element in document order with that id; the
  empty string is the id of no element.\<close>

definition getElementById :: "page \<Rightarrow> string \<Rightarrow> ref option" where
  "getElementById p i =
     (if i = [] then None else first_index (\<lambda>e. ident e = i) (elements p))"

text \<open>A write to a property of the element behind a reference.\<close>

definition update_element :: "ref \<Rightarrow> (element \<Rightarrow> element) \<Rightarrow> page \<Rightarrow> page" where
  "update_element r f p =
     (if r < length (elements p)
      then p\<lparr>elements := (elements p)[r := f (elements p ! r)]\<rparr>
      else p)"

text \<open>\<open>DOMTokenList\<close>: an ordered set of class names.\<close>

definition classList_contains :: "string list \<Rightarrow> string \<Rightarrow> bool" where
  "classList_contains cs c = (c \<in> set cs)"

definition classList_add :: "string \<Rightarrow> string list \<Rightarrow> string list" where
  "classList_add c cs = (if c \<in> set cs then cs else cs @ [c])"

definition classList_remove :: "string \<Rightarrow> string list \<Rightarrow> string list" where
  "classList_remove c cs = removeAll c cs"

section \<open>Numbers\<close>

text \<open>
  A JavaScript number is an IEEE 754 double. A finite double is a rational number, and
  \<open>*\<close> and \<open>+\<close> return the exact result rounded to the nearest double, ties to the even
  significand. The significand has 53 bits; below \<open>2 powi (- 1022)\<close> the spacing stays at
  \<open>2 powi (- 1074)\<close>. No operand of the script exceeds 100, so overflow is left out.
\<close>

definition round_half_even :: "rat \<Rightarrow> int" where
  "round_half_even y =
     (let f = \<lfloor>y\<rfloor>; r = y - of_int f
      in if r < 1 / 2 then f
         else if 1 / 2 < r then f + 1
         else if even f then f else f + 1)"

text \<open>The binary exponent of a positive rational: \<open>2 powi e \<le> x < 2 powi (e + 1)\<close>.\<close>

definition floor_log2 :: "rat \<Rightarrow> int" where
  "floor_log2 x =
     (let d = bitlen (fst (quotient_of x)) - bitlen (snd (quotient_of x))
      in if 2 powi d \<le> x then d else d - 1)"

text \<open>The spacing of the doubles around \<open>x\<close>.\<close>

definition ulp :: "rat \<Rightarrow> rat" where
  "ulp x = 2 powi (max (floor_log2 \<bar>x\<bar> - 52) (- 1074))"

definition fp_round :: "rat \<Rightarrow> rat" where
  "fp_round x = (if x = 0 then 0 else of_int (round_half_even (x / ulp x)) * ulp x)"

definition is_double :: "rat \<Rightarrow> bool" where
  "is_double x = (fp_round x = x)"

definition fmul :: "rat \<Rightarrow> rat \<Rightarrow> rat" where
  "fmul a b = fp_round (a * b)"

definition fadd :: "rat \<Rightarrow> rat \<Rightarrow> rat" where
  "fadd a b = fp_round (a + b)"

text \<open>
  Reading a property back from the style object does not return the string that was
  assigned but the CSSOM serialisation of the stored value: the number is written with at
  most 6 decimals, rounded if necessary.
\<close>

definition cssom_serialize :: "rat \<Rightarrow> rat" where
  "cssom_serialize v = of_int (round_half_even (v * 1000000)) / 1000000"

section \<open>Animated star background\<close>

text \<open>
  \<open>Math.random\<close> is the sequence of the doubles it returns, one per call. A star takes
  five of them, in the order of the five statements that call it; \<open>c\<close> is the number of
  calls made before this star. The height is not computed: the script assigns what
  \<open>star.style.width\<close> reads back.
\<close>

definition createStar :: "(nat \<Rightarrow> rat) \<Rightarrow> nat \<Rightarrow> star" where
  "createStar random c =
     (let top = fmul (random c) 100;
          left = fmul (random (c + 1)) 100;
          width = fmul (random (c + 2)) 3;
          height = cssom_serialize width;
          animationDelay = fmul (random (c + 3)) 5;
          animationDuration = fadd (fmul (random (c + 4)) 5) 5
      in \<lparr>className = ''star'', style_top = top, style_left = left, style_width = width,
          style_height = height, style_animationDelay = animationDelay,
          style_animationDuration = animationDuration\<rparr>)"

definition appendChild :: "ref \<Rightarrow> star \<Rightarrow> page \<Rightarrow> page" where
  "appendChild r s p = update_element r (\<lambda>e. e\<lparr>appended := appended e @ [s]\<rparr>) p"

function star_loop :: "nat \<Rightarrow> nat \<Rightarrow> (nat \<Rightarrow> rat) \<Rightarrow> ref \<Rightarrow> page \<Rightarrow> page" where
  "star_loop i numberOfStars random starBackground p =
     (if i < numberOfStars
      then star_loop (Suc i) numberOfStars random starBackground
             (appendChild starBackground (createStar random (5 * i)) p)
      else p)"
  by pat_completeness auto
termination
  by (relation "measure (\<lambda>(i, numberOfStars, random, starBackground, p). numberOfStars - i)") auto

declare star_loop.simps [simp del]

definition star_background :: "(nat \<Rightarrow> rat) \<Rightarrow> page \<Rightarrow> page" where
  "star_background random p =
     (case getElementById p ''star-background'' of
        None \<Rightarrow> p
      | Some starBackground \<Rightarrow> star_loop 0 150 random starBackground p)"

section \<open>Modal handling\<close>

text \<open>
  \<open>videoSrc\<close> is \<open>None\<close> when the caller passed no second argument; a string is truthy
  when it is not empty.
\<close>

definition truthy :: "string option \<Rightarrow> bool" where
  "truthy v = (case v of None \<Rightarrow> False | Some s \<Rightarrow> s \<noteq> [])"

text \<open>The string an assignment to \<open>src\<close> stores.\<close>

definition to_string :: "string option \<Rightarrow> string" where
  "to_string v = (case v of None \<Rightarrow> ''undefined'' | Some s \<Rightarrow> s)"

definition openModal :: "string \<Rightarrow> string option \<Rightarrow> page \<Rightarrow> page" where
  "openModal modalId videoSrc p =
     (case getElementById p modalId of
        None \<Rightarrow> p
      | Some modal \<Rightarrow>
          let p1 = update_element modal (\<lambda>e. e\<lparr>style_display := ''block''\<rparr>) p
          in if modalId = ''videoPlayerModal'' \<and> truthy videoSrc
             then (case getElementById p1 ''videoPlayer'' of
                     None \<Rightarrow> p1
                   | Some videoPlayer \<Rightarrow>
                       update_element videoPlayer (\<lambda>e. e\<lparr>paused := False\<rparr>)
                         (update_element videoPlayer (\<lambda>e. e\<lparr>src := to_string videoSrc\<rparr>) p1))
             else p1)"

definition closeModal :: "string \<Rightarrow> page \<Rightarrow> page" where
  "closeModal modalId p =
     (case getElementById p modalId of
        None \<Rightarrow> p
      | Some modal \<Rightarrow>
          let p1 = update_element modal (\<lambda>e. e\<lparr>style_display := ''none''\<rparr>) p
          in if modalId = ''videoPlayerModal''
             then (case getElementById p1 ''videoPlayer'' of
                     None \<Rightarrow> p1
                   | Some videoPlayer \<Rightarrow>
                       update_element videoPlayer (\<lambda>e. e\<lparr>src := []\<rparr>)
                         (update_element videoPlayer (\<lambda>e. e\<lparr>paused := True\<rparr>) p1))
             else p1)"

text \<open>\<open>window.onclick\<close>: the handler reads the class list and the id of the event's target.\<close>

definition window_onclick :: "element \<Rightarrow> page \<Rightarrow> page" where
  "window_onclick target p =
     (if classList_contains (classList target) ''modal''
      then closeModal (ident target) p
      else p)"

section \<open>Password visibility toggle\<close>

text \<open>
  The list of elements is in document order, each element naming its parent. The element
  siblings before \<open>b\<close> are the earlier elements with the parent of \<open>b\<close>; the
  descendants of \<open>b\<close> are later elements whose chain of parents reaches \<open>b\<close>.
\<close>

definition previousElementSibling :: "page \<Rightarrow> ref \<Rightarrow> ref option" where
  "previousElementSibling p b =
     (if b < length (elements p)
      then (case filter (\<lambda>j. parent (elements p ! j) = parent (elements p ! b)) (rev [0..<b]) of
              [] \<Rightarrow> None
            | j # _ \<Rightarrow> Some j)
      else None)"

fun has_ancestor :: "element list \<Rightarrow> nat \<Rightarrow> ref \<Rightarrow> ref \<Rightarrow> bool" where
  "has_ancestor es 0 j b = False"
| "has_ancestor es (Suc n) j b =
     (j < length es \<and>
      (case parent (es ! j) of
         None \<Rightarrow> False
       | Some q \<Rightarrow> q = b \<or> has_ancestor es n q b))"

text \<open>\<open>querySelector\<close> with a type selector: the first descendant with that tag.\<close>

definition querySelector :: "page \<Rightarrow> ref \<Rightarrow> string \<Rightarrow> ref option" where
  "querySelector p b t =
     (case filter (\<lambda>j. tag (elements p ! j) = t
                     \<and> has_ancestor (elements p) (length (elements p)) j b)
             [Suc b..<length (elements p)] of
        [] \<Rightarrow> None
      | j # _ \<Rightarrow> Some j)"

text \<open>
  A property read on \<open>null\<close> throws a TypeError that nothing in the script catches. What
  was written before the throw stays written, so the outcome carries the page.
\<close>

datatype js_error = TypeError

datatype outcome = Completed page | Uncaught js_error page

definition togglePassword :: "ref \<Rightarrow> page \<Rightarrow> outcome" where
  "togglePassword button p =
     (case previousElementSibling p button of
        None \<Rightarrow> Uncaught TypeError p
      | Some input \<Rightarrow>
          let icon = querySelector p button ''i'' in
          if etype (elements p ! input) = ''password''
          then
            (let p1 = update_element input (\<lambda>e. e\<lparr>etype := ''text''\<rparr>) p in
             case icon of
               None \<Rightarrow> Uncaught TypeError p1
             | Some i \<Rightarrow>
                 Completed
                   (update_element i (\<lambda>e. e\<lparr>classList := classList_add ''fa-eye-slash'' (classList e)\<rparr>)
                     (update_element i (\<lambda>e. e\<lparr>classList := classList_remove ''fa-eye'' (classList e)\<rparr>) p1)))
          else
            (let p1 = update_element input (\<lambda>e. e\<lparr>etype := ''password''\<rparr>) p in
             case icon of
               None \<Rightarrow> Uncaught TypeError p1
             | Some i \<Rightarrow>
                 Completed
                   (update_element i (\<lambda>e. e\<lparr>classList := classList_add ''fa-eye'' (classList e)\<rparr>)
                     (update_element i (\<lambda>e. e\<lparr>classList := classList_remove ''fa-eye-slash'' (classList e)\<rparr>) p1))))"

section \<open>Drag and drop upload\<close>

text \<open>The loop of \<open>handleUpload\<close> over the indices of the file list.\<close>

function formData_loop :: "nat \<Rightarrow> File list \<Rightarrow> (string \<times> File) list \<Rightarrow> (string \<times> File) list" where
  "formData_loop i fs formData =
     (if i < length fs
      then formData_loop (Suc i) fs (formData @ [(''file'', fs ! i)])
      else formData)"
  by pat_completeness auto
termination
  by (relation "measure (\<lambda>(i, fs, formData). length fs - i)") auto

declare formData_loop.simps [simp del]

text \<open>
  \<open>handleUpload\<close> returns once \<open>fetch\<close> has been called: the request is on the wire
  and the promise is pending.
\<close>

definition handleUpload :: "File list \<Rightarrow> string \<Rightarrow> page \<Rightarrow> page" where
  "handleUpload fs url p =
     (let formData = formData_loop 0 fs []
      in p\<lparr>requests := requests p @
              [\<lparr>req_url = url, req_method = ''POST'', req_body = formData\<rparr>]\<rparr>)"

text \<open>
  How the promise of \<open>fetch\<close> settles: it rejects, or it fulfils with a response of some
  status whose \<open>json()\<close> gives the parsed body, or rejects when the body is not JSON.
\<close>

datatype fetch_outcome = Rejected | Response nat "string option"

definition upload_success :: "string \<Rightarrow> page \<Rightarrow> page" where
  "upload_success data p =
     p\<lparr>console := console p @ [''Upload success:''], reloads := Suc (reloads p)\<rparr>"

definition upload_error :: "page \<Rightarrow> page" where
  "upload_error p =
     p\<lparr>console := console p @ [''Upload error:''],
       alerts := alerts p @ [''An error occurred during upload.'']\<rparr>"

text \<open>The chain \<open>.then(response => response.json()).then(...).catch(...)\<close>.\<close>

definition handleUpload_settled :: "fetch_outcome \<Rightarrow> page \<Rightarrow> page" where
  "handleUpload_settled r p =
     (case r of
        Rejected \<Rightarrow> upload_error p
      | Response status body \<Rightarrow>
          (case body of
             None \<Rightarrow> upload_error p
           | Some data \<Rightarrow> upload_success data p))"

record event =
  dataTransfer_files :: "File list"
  defaultPrevented :: bool

definition addEventListener :: "ref \<Rightarrow> string \<Rightarrow> listener \<Rightarrow> page \<Rightarrow> page" where
  "addEventListener t ty l p =
     p\<lparr>listeners := listeners p @ [\<lparr>reg_target = t, reg_type = ty, reg_listener = l\<rparr>]\<rparr>"

definition setupDropZone :: "string \<Rightarrow> string \<Rightarrow> page \<Rightarrow> page" where
  "setupDropZone zoneId inputId p =
     (case getElementById p zoneId of
        None \<Rightarrow> p
      | Some dropZone \<Rightarrow>
          (case getElementById p inputId of
             None \<Rightarrow> p
           | Some fileInput \<Rightarrow>
               (case dataset_uploadUrl (elements p ! fileInput) of
                  None \<Rightarrow> p
                | Some uploadUrl \<Rightarrow>
                    if uploadUrl = [] then p
                    else
                      addEventListener fileInput ''change'' (InputChange fileInput uploadUrl)
                        (addEventListener dropZone ''drop'' (ZoneDrop dropZone fileInput uploadUrl)
                          (addEventListener dropZone ''dragleave'' (ZoneDragleave dropZone)
                            (addEventListener dropZone ''dragover'' (ZoneDragover dropZone)
                              (addEventListener dropZone ''click'' (ZoneClick fileInput) p)))))))"

text \<open>
  The bodies of the five arrow functions. The references they hold were returned by
  \<open>getElementById\<close>, and the script removes no element, so they name an element of the
  page whenever a listener runs.
\<close>

fun run_listener :: "listener \<Rightarrow> event \<Rightarrow> page \<Rightarrow> event \<times> page" where
  "run_listener (ZoneClick fileInput) e p = (e, p\<lparr>dialogs := dialogs p @ [fileInput]\<rparr>)"
| "run_listener (ZoneDragover dropZone) e p =
     (e\<lparr>defaultPrevented := True\<rparr>,
      update_element dropZone (\<lambda>x. x\<lparr>classList := classList_add ''dragover'' (classList x)\<rparr>) p)"
| "run_listener (ZoneDragleave dropZone) e p =
     (e, update_element dropZone (\<lambda>x. x\<lparr>classList := classList_remove ''dragover'' (classList x)\<rparr>) p)"
| "run_listener (ZoneDrop dropZone fileInput uploadUrl) e p =
     (let e1 = e\<lparr>defaultPrevented := True\<rparr>;
          p1 = update_element dropZone
                 (\<lambda>x. x\<lparr>classList := classList_remove ''dragover'' (classList x)\<rparr>) p;
          fs = dataTransfer_files e1
      in if length fs \<noteq> 0
         then (e1, handleUpload fs uploadUrl (update_element fileInput (\<lambda>x. x\<lparr>files := fs\<rparr>) p1))
         else (e1, p1))"
| "run_listener (InputChange fileInput uploadUrl) e p =
     (if length (files (elements p ! fileInput)) \<noteq> 0
      then (e, handleUpload (files (elements p ! fileInput)) uploadUrl p)
      else (e, p))"

text \<open>An event at a target runs the listeners registered there for its type, in order.\<close>

definition dispatchEvent :: "ref \<Rightarrow> string \<Rightarrow> event \<Rightarrow> page \<Rightarrow> event \<times> page" where
  "dispatchEvent t ty e p =
     fold (\<lambda>l (e', p'). run_listener (reg_listener l) e' p')
       (filter (\<lambda>l. reg_target l = t \<and> reg_type l = ty) (listeners p)) (e, p)"

section \<open>The page-ready handler\<close>

definition DOMContentLoaded :: "(nat \<Rightarrow> rat) \<Rightarrow> page \<Rightarrow> page" where
  "DOMContentLoaded random p =
     setupDropZone ''anime-drop-zone'' ''anime-input''
       (setupDropZone ''video-drop-zone'' ''video-input''
         (setupDropZone ''file-drop-zone'' ''file-input''
           (star_background random p)))"

text \<open>The listeners an element has for the drop event.\<close>

definition drop_listeners :: "ref \<Rightarrow> page \<Rightarrow> registration list" where
  "drop_listeners t p = filter (\<lambda>l. reg_target l = t \<and> reg_type l = ''drop'') (listeners p)"

text \<open>Two successive clicks on a password toggle button.\<close>

definition toggle_twice :: "ref \<Rightarrow> page \<Rightarrow> outcome" where
  "toggle_twice button p =
     (case togglePassword button p of
        Completed p1 \<Rightarrow> togglePassword button p1
      | Uncaught err p1 \<Rightarrow> Uncaught err p1)"

section \<open>Example pages\<close>

definition element0 :: "string \<Rightarrow> string \<Rightarrow> ref option \<Rightarrow> element" where
  "element0 t i par =
     \<lparr>tag = t, ident = i, parent = par, classList = [], style_display = [], src = [],
      paused = True, etype = [], files = [], dataset_uploadUrl = None, appended = []\<rparr>"

definition page0 :: "element list \<Rightarrow> page" where
  "page0 es =
     \<lparr>elements = es, listeners = [], requests = [], dialogs = [], console = [],
      alerts = [], reloads = 0\<rparr>"

text \<open>A video modal with its player, and the star container.\<close>

definition modal_page :: page where
  "modal_page = page0
     [(element0 ''div'' ''videoPlayerModal'' None)\<lparr>classList := [''modal'']\<rparr>,
      element0 ''video'' ''videoPlayer'' (Some 0),
      element0 ''div'' ''star-background'' None]"

text \<open>An open modal that has the class but no id.\<close>

definition anonymous_modal_page :: page where
  "anonymous_modal_page = page0
     [(element0 ''div'' [] None)\<lparr>classList := [''modal''], style_display := ''block''\<rparr>]"

text \<open>A password field, its toggle button and the icon in the button.\<close>

definition login_page :: "string \<Rightarrow> string list \<Rightarrow> page" where
  "login_page input_type icon_classes = page0
     [element0 ''div'' [] None,
      (element0 ''input'' ''password'' (Some 0))\<lparr>etype := input_type\<rparr>,
      element0 ''button'' [] (Some 0),
      (element0 ''i'' [] (Some 2))\<lparr>classList := icon_classes\<rparr>]"

text \<open>A drop zone whose input names an upload URL, and one whose input names none.\<close>

definition upload_page :: page where
  "upload_page = page0
     [element0 ''div'' ''file-drop-zone'' None,
      (element0 ''input'' ''file-input'' (Some 0))
         \<lparr>etype := ''file'', dataset_uploadUrl := Some ''/upload''\<rparr>,
      element0 ''div'' ''video-drop-zone'' None,
      (element0 ''input'' ''video-input'' (Some 2))\<lparr>etype := ''file''\<rparr>]"

definition drop_event :: "File list \<Rightarrow> event" where
  "drop_event fs = \<lparr>dataTransfer_files = fs, defaultPrevented = False\<rparr>"



section \<open>Facts about the DOM operations\<close>

lemma first_index_SomeD:
  "first_index P xs = Some j \<Longrightarrow> j < length xs \<and> P (xs ! j)"
  by (induction xs arbitrary: j) (auto split: if_splits)

lemma first_index_map:
  "first_index P (map f xs) = first_index (\<lambda>x. P (f x)) xs"
  by (induction xs) auto

lemma getElementById_SomeD:
  "getElementById p i = Some r \<Longrightarrow> r < length (elements p) \<and> ident (elements p ! r) = i \<and> i \<noteq> []"
  by (auto simp: getElementById_def dest: first_index_SomeD split: if_splits)

lemma getElementById_idents:
  "map ident (elements q) = map ident (elements p) \<Longrightarrow> getElementById q i = getElementById p i"
proof -
  assume h: "map ident (elements q) = map ident (elements p)"
  have "first_index (\<lambda>e. ident e = i) (elements q) = first_index (\<lambda>x. x = i) (map ident (elements q))"
    by (simp add: first_index_map)
  also have "\<dots> = first_index (\<lambda>e. ident e = i) (elements p)"
    by (simp add: h first_index_map)
  finally show ?thesis by (simp add: getElementById_def)
qed

lemma length_update_element [simp]:
  "length (elements (update_element r f p)) = length (elements p)"
  by (simp add: update_element_def)

lemma nth_update_element:
  "k < length (elements p) \<Longrightarrow>
   elements (update_element r f p) ! k = (if k = r then f (elements p ! k) else elements p ! k)"
  by (simp add: update_element_def)

lemma idents_update_element:
  "(\<And>e. ident (f e) = ident e) \<Longrightarrow>
   map ident (elements (update_element r f p)) = map ident (elements p)"
  by (simp add: update_element_def map_update list_update_same_conv)

lemma getElementById_update_element:
  "(\<And>e. ident (f e) = ident e) \<Longrightarrow>
   getElementById (update_element r f p) i = getElementById p i"
  by (rule getElementById_idents) (rule idents_update_element)

section \<open>Properties of the modal controller\<close>

lemma getElementById_openModal [simp]:
  "getElementById (openModal i v p) j = getElementById p j"
  by (simp add: openModal_def Let_def getElementById_update_element split: option.splits)

lemma getElementById_closeModal [simp]:
  "getElementById (closeModal i p) j = getElementById p j"
  by (simp add: closeModal_def Let_def getElementById_update_element split: option.splits)

lemma closeModal_hidden:
  "getElementById p i = Some m \<Longrightarrow> style_display (elements (closeModal i p) ! m) = ''none''"
  by (auto simp: closeModal_def Let_def getElementById_update_element nth_update_element
      dest!: getElementById_SomeD split: option.splits)

lemma closeModal_frame:
  "getElementById p i \<noteq> Some k \<Longrightarrow> k < length (elements p) \<Longrightarrow>
   style_display (elements (closeModal i p) ! k) = style_display (elements p ! k)"
  by (auto simp: closeModal_def Let_def getElementById_update_element nth_update_element
      split: option.splits)

lemma length_closeModal [simp]: "length (elements (closeModal i p)) = length (elements p)"
  by (simp add: closeModal_def Let_def split: option.splits)

lemma getElementById_modal_page:
  "getElementById modal_page ''videoPlayerModal'' = Some 0"
  "getElementById modal_page ''videoPlayer'' = Some 1"
  "getElementById modal_page ''star-background'' = Some 2"
  "getElementById modal_page ''nothing'' = None"
  by (simp_all add: getElementById_def modal_page_def page0_def element0_def)

text \<open>
  C4. When \<open>modalId\<close> names an element, \<open>openModal\<close> followed by \<open>closeModal\<close> leaves
  that element with \<open>style.display = 'none'\<close>, whatever video source was passed. When
  \<open>modalId\<close> names no element, each of the two calls returns the page it was given: both
  functions skip their body, and no statement that could throw is reached.
\<close>

theorem open_then_close_hides:
  "(getElementById p modalId = Some modal \<longrightarrow>
      getElementById (closeModal modalId (openModal modalId videoSrc p)) modalId = Some modal
    \<and> style_display (elements (closeModal modalId (openModal modalId videoSrc p)) ! modal) = ''none'')
   \<and> (getElementById p modalId = None \<longrightarrow>
        openModal modalId videoSrc p = p \<and> closeModal modalId p = p)"
  by (auto simp: closeModal_hidden) (simp_all add: openModal_def closeModal_def)

theorem open_then_close_hides_witness:
  "style_display (elements (closeModal ''videoPlayerModal''
      (openModal ''videoPlayerModal'' (Some ''a.mp4'') modal_page)) ! 0) = ''none''
   \<and> openModal ''nothing'' None modal_page = modal_page
   \<and> closeModal ''nothing'' modal_page = modal_page"
  using open_then_close_hides [of modal_page "''videoPlayerModal''" 0 "Some ''a.mp4''"]
    open_then_close_hides [of modal_page "''nothing''" 0 None]
    getElementById_modal_page
  by blast

text \<open>
  C5. On a page that has the video modal and the video element, \<open>openModal\<close> on
  \<open>'videoPlayerModal'\<close> with a truthy source stores that source in the player's \<open>src\<close>
  and starts playback; \<open>closeModal\<close> on \<open>'videoPlayerModal'\<close> pauses the player and sets
  its \<open>src\<close> to the empty string.
\<close>

theorem video_modal_drives_player:
  assumes "getElementById p ''videoPlayerModal'' = Some modal"
      and "getElementById p ''videoPlayer'' = Some videoPlayer"
  shows "(truthy videoSrc \<longrightarrow>
            src (elements (openModal ''videoPlayerModal'' videoSrc p) ! videoPlayer) = to_string videoSrc
          \<and> \<not> paused (elements (openModal ''videoPlayerModal'' videoSrc p) ! videoPlayer))
       \<and> paused (elements (closeModal ''videoPlayerModal'' p) ! videoPlayer)
       \<and> src (elements (closeModal ''videoPlayerModal'' p) ! videoPlayer) = []"
  using assms
  by (auto simp: openModal_def closeModal_def Let_def getElementById_update_element
      nth_update_element dest!: getElementById_SomeD)

theorem video_modal_drives_player_witness:
  "src (elements (openModal ''videoPlayerModal'' (Some ''a.mp4'') modal_page) ! 1) = ''a.mp4''
   \<and> \<not> paused (elements (openModal ''videoPlayerModal'' (Some ''a.mp4'') modal_page) ! 1)
   \<and> paused (elements (closeModal ''videoPlayerModal'' modal_page) ! 1)
   \<and> src (elements (closeModal ''videoPlayerModal'' modal_page) ! 1) = []"
proof -
  have t: "truthy (Some ''a.mp4'')" by (simp add: truthy_def)
  have s: "to_string (Some ''a.mp4'') = ''a.mp4''" by (simp add: to_string_def)
  from video_modal_drives_player [OF getElementById_modal_page(1) getElementById_modal_page(2),
      of "Some ''a.mp4''"] t s
  show ?thesis by simp
qed

text \<open>
  The click handler finds the modal again through \<open>getElementById\<close>. A target without an
  id is found by no id, so a click on it closes nothing, with or without the class.
\<close>

lemma window_onclick_without_id: "ident target = [] \<Longrightarrow> window_onclick target p = p"
  by (simp add: window_onclick_def closeModal_def getElementById_def)

text \<open>
  A click on an open modal that carries the class \<open>modal\<close> and has no id: the handler
  calls \<open>closeModal\<close> with the empty string, and the target stays open.
\<close>

theorem backdrop_click_without_id_counterexample:
  "classList_contains (classList (elements anonymous_modal_page ! 0)) ''modal''
   \<and> style_display (elements anonymous_modal_page ! 0) = ''block''
   \<and> window_onclick (elements anonymous_modal_page ! 0) anonymous_modal_page = anonymous_modal_page
   \<and> style_display
        (elements (window_onclick (elements anonymous_modal_page ! 0) anonymous_modal_page) ! 0)
       \<noteq> ''none''"
proof -
  have i: "ident (elements anonymous_modal_page ! 0) = []"
    and c: "classList_contains (classList (elements anonymous_modal_page ! 0)) ''modal''"
    and d: "style_display (elements anonymous_modal_page ! 0) = ''block''"
    by (simp_all add: anonymous_modal_page_def page0_def element0_def classList_contains_def)
  have w: "window_onclick (elements anonymous_modal_page ! 0) anonymous_modal_page
             = anonymous_modal_page"
    by (rule window_onclick_without_id [OF i])
  show ?thesis
    unfolding w using c d by simp
qed

text \<open>
  C8 (amended). A click whose target carries the class \<open>modal\<close> closes the element that
  \<open>getElementById\<close> returns for the id of the target, which is the target itself when its
  id identifies it, and leaves the \<open>style.display\<close> of every other element as it was;
  when no element has that id, nothing is closed. A click whose target does not carry the
  class leaves the page as it was.
\<close>

theorem backdrop_click_closes_element_of_target_id:
  "(classList_contains (classList target) ''modal'' \<longrightarrow>
      (\<forall>m. getElementById p (ident target) = Some m \<longrightarrow>
         style_display (elements (window_onclick target p) ! m) = ''none'')
    \<and> (\<forall>k < length (elements p). getElementById p (ident target) \<noteq> Some k \<longrightarrow>
         style_display (elements (window_onclick target p) ! k) = style_display (elements p ! k))
    \<and> (getElementById p (ident target) = None \<longrightarrow> window_onclick target p = p))
   \<and> (\<not> classList_contains (classList target) ''modal'' \<longrightarrow> window_onclick target p = p)"
  by (simp add: window_onclick_def closeModal_hidden closeModal_frame) (simp add: closeModal_def)

theorem backdrop_click_closes_element_of_target_id_witness:
  "style_display (elements (window_onclick (elements modal_page ! 0) modal_page) ! 0) = ''none''
   \<and> style_display (elements (window_onclick (elements modal_page ! 0) modal_page) ! 1)
       = style_display (elements modal_page ! 1)
   \<and> window_onclick (elements modal_page ! 2) modal_page = modal_page"
proof -
  have i0: "getElementById modal_page (ident (elements modal_page ! 0)) = Some 0"
    by (simp add: getElementById_def modal_page_def page0_def element0_def)
  have c0: "classList_contains (classList (elements modal_page ! 0)) ''modal''"
    and c2: "\<not> classList_contains (classList (elements modal_page ! 2)) ''modal''"
    and l: "(1::nat) < length (elements modal_page)"
    by (simp_all add: classList_contains_def modal_page_def page0_def element0_def)
  from backdrop_click_closes_element_of_target_id [of "elements modal_page ! 0" modal_page]
    backdrop_click_closes_element_of_target_id [of "elements modal_page ! 2" modal_page]
    i0 c0 c2 l
  show ?thesis by simp
qed

section \<open>Properties of the password toggle\<close>

text \<open>
  The previous sibling comes before the button in document order and the icon comes after
  it, so they are two elements; and writes to \<open>type\<close> and \<open>classList\<close> move no element.
\<close>

lemma previousElementSibling_SomeD:
  "previousElementSibling p b = Some j \<Longrightarrow> j < b \<and> b < length (elements p)"
proof -
  assume h: "previousElementSibling p b = Some j"
  then have b: "b < length (elements p)"
    by (simp add: previousElementSibling_def split: if_splits)
  from h b obtain js where
    "filter (\<lambda>j. parent (elements p ! j) = parent (elements p ! b)) (rev [0..<b]) = j # js"
    by (auto simp: previousElementSibling_def split: list.splits)
  then have "j \<in> set (filter (\<lambda>j. parent (elements p ! j) = parent (elements p ! b)) (rev [0..<b]))"
    by simp
  then have "j < b" by simp
  with b show ?thesis by simp
qed

lemma querySelector_SomeD:
  "querySelector p b t = Some j \<Longrightarrow> b < j \<and> j < length (elements p)"
proof -
  assume h: "querySelector p b t = Some j"
  then obtain js where
    "filter (\<lambda>j. tag (elements p ! j) = t \<and> has_ancestor (elements p) (length (elements p)) j b)
       [Suc b..<length (elements p)] = j # js"
    by (auto simp: querySelector_def split: list.splits)
  then have "j \<in> set (filter (\<lambda>j. tag (elements p ! j) = t \<and> has_ancestor (elements p) (length (elements p)) j b)
       [Suc b..<length (elements p)])"
    by simp
  then show ?thesis by auto
qed

lemma has_ancestor_update:
  assumes "\<And>e. parent (f e) = parent e"
  shows "has_ancestor (es[r := f (es ! r)]) n j b = has_ancestor es n j b"
proof (induction n arbitrary: j)
  case 0
  show ?case by simp
next
  case (Suc n)
  show ?case
  proof (cases "j < length es")
    case False
    then show ?thesis by simp
  next
    case True
    then have "parent (es[r := f (es ! r)] ! j) = parent (es ! j)"
      by (cases "j = r") (simp_all add: assms)
    with True Suc show ?thesis by (simp split: option.splits)
  qed
qed

lemma previousElementSibling_update_element:
  assumes "\<And>e. parent (f e) = parent e"
  shows "previousElementSibling (update_element r f p) b = previousElementSibling p b"
proof (cases "b < length (elements p)")
  case False
  then show ?thesis by (simp add: previousElementSibling_def)
next
  case True
  have par: "\<And>k. k < length (elements p) \<Longrightarrow>
      parent (elements (update_element r f p) ! k) = parent (elements p ! k)"
    by (simp add: nth_update_element assms)
  have "filter (\<lambda>j. parent (elements (update_element r f p) ! j) = parent (elements (update_element r f p) ! b)) (rev [0..<b])
      = filter (\<lambda>j. parent (elements p ! j) = parent (elements p ! b)) (rev [0..<b])"
    using True by (intro filter_cong refl) (simp add: par)
  with True show ?thesis by (simp add: previousElementSibling_def)
qed

lemma querySelector_update_element:
  assumes "\<And>e. parent (f e) = parent e" and "\<And>e. tag (f e) = tag e"
  shows "querySelector (update_element r f p) b t = querySelector p b t"
proof -
  have anc: "\<And>j. has_ancestor (elements (update_element r f p)) (length (elements p)) j b
      = has_ancestor (elements p) (length (elements p)) j b"
    by (simp add: update_element_def has_ancestor_update assms(1))
  have tg: "\<And>k. k < length (elements p) \<Longrightarrow>
      tag (elements (update_element r f p) ! k) = tag (elements p ! k)"
    by (simp add: nth_update_element assms)
  have "filter (\<lambda>j. tag (elements (update_element r f p) ! j) = t
                     \<and> has_ancestor (elements (update_element r f p)) (length (elements p)) j b)
             [Suc b..<length (elements p)]
      = filter (\<lambda>j. tag (elements p ! j) = t
                     \<and> has_ancestor (elements p) (length (elements p)) j b)
             [Suc b..<length (elements p)]"
    by (intro filter_cong refl) (simp add: anc tg)
  then show ?thesis by (simp add: querySelector_def)
qed

lemma togglePassword_Completed:
  assumes prev: "previousElementSibling p b = Some inp"
      and qry: "querySelector p b ''i'' = Some ico"
  shows "\<exists>q. togglePassword b p = Completed q
           \<and> previousElementSibling q b = Some inp
           \<and> querySelector q b ''i'' = Some ico
           \<and> etype (elements q ! inp) =
               (if etype (elements p ! inp) = ''password'' then ''text'' else ''password'')
           \<and> classList (elements q ! ico) =
               (if etype (elements p ! inp) = ''password''
                then classList_add ''fa-eye-slash'' (classList_remove ''fa-eye'' (classList (elements p ! ico)))
                else classList_add ''fa-eye'' (classList_remove ''fa-eye-slash'' (classList (elements p ! ico))))"
proof -
  from prev have i: "inp < b" "b < length (elements p)"
    by (auto dest: previousElementSibling_SomeD)
  from qry have c: "b < ico" "ico < length (elements p)"
    by (auto dest: querySelector_SomeD)
  from i c have ne: "inp \<noteq> ico" and il: "inp < length (elements p)" by simp_all
  show ?thesis
    using prev qry ne il c(2)
    by (simp add: togglePassword_def Let_def previousElementSibling_update_element
        querySelector_update_element nth_update_element)
qed

lemma login_page_relations:
  "previousElementSibling (login_page t cs) 2 = Some 1"
  "querySelector (login_page t cs) 2 ''i'' = Some 3"
  "previousElementSibling (login_page t cs) 1 = None"
  by (simp_all add: previousElementSibling_def querySelector_def login_page_def page0_def
      element0_def upt_rec numeral_3_eq_3 numeral_2_eq_2)

lemma login_page_fields:
  "etype (elements (login_page t cs) ! Suc 0) = t"
  "classList (elements (login_page t cs) ! 3) = cs"
  "alerts (login_page t cs) = []"
  "console (login_page t cs) = []"
  by (simp_all add: login_page_def page0_def element0_def)

lemma login_page_updates:
  "update_element (Suc 0) (\<lambda>e. e\<lparr>etype := t'\<rparr>) (login_page t cs) = login_page t' cs"
  "update_element 3 (\<lambda>e. e\<lparr>classList := f (classList e)\<rparr>) (login_page t cs) = login_page t (f cs)"
  by (simp_all add: login_page_def page0_def element0_def update_element_def)

lemma togglePassword_login_page:
  "togglePassword 2 (login_page t cs) =
     Completed (if t = ''password''
                then login_page ''text'' (classList_add ''fa-eye-slash'' (classList_remove ''fa-eye'' cs))
                else login_page ''password'' (classList_add ''fa-eye'' (classList_remove ''fa-eye-slash'' cs)))"
  by (simp add: togglePassword_def login_page_relations Let_def login_page_fields login_page_updates)

text \<open>
  A masked field whose icon starts as \<open>fa-eye-slash\<close>: the first click finds no
  \<open>fa-eye\<close> to remove, the second click swaps \<open>fa-eye-slash\<close> for \<open>fa-eye\<close>, and
  the icon ends with a class set it did not start with.
\<close>

theorem toggle_twice_eye_slash_counterexample:
  "previousElementSibling (login_page ''password'' [''fas'', ''fa-eye-slash'']) 2 = Some 1
   \<and> querySelector (login_page ''password'' [''fas'', ''fa-eye-slash'']) 2 ''i'' = Some 3
   \<and> toggle_twice 2 (login_page ''password'' [''fas'', ''fa-eye-slash''])
       = Completed (login_page ''password'' [''fas'', ''fa-eye''])
   \<and> set (classList (elements (login_page ''password'' [''fas'', ''fa-eye'']) ! 3))
       \<noteq> set (classList (elements (login_page ''password'' [''fas'', ''fa-eye-slash'']) ! 3))"
proof -
  have "toggle_twice 2 (login_page ''password'' [''fas'', ''fa-eye-slash''])
       = Completed (login_page ''password'' [''fas'', ''fa-eye''])"
    by (simp add: toggle_twice_def togglePassword_login_page classList_add_def classList_remove_def)
  moreover have "set [''fas'', ''fa-eye''] \<noteq> set [''fas'', ''fa-eye-slash'']"
  proof -
    have "''fa-eye'' \<in> set [''fas'', ''fa-eye'']" by simp
    moreover have "''fa-eye'' \<notin> set [''fas'', ''fa-eye-slash'']" by simp
    ultimately show ?thesis by blast
  qed
  ultimately show ?thesis
    by (simp only: login_page_relations login_page_fields simp_thms)
qed

text \<open>
  C6 (amended). For a button with a previous sibling and an icon, whose field and icon are
  in one of the two states the function itself produces (type \<open>password\<close> with
  \<open>fa-eye\<close> and without \<open>fa-eye-slash\<close>, or type \<open>text\<close> with \<open>fa-eye-slash\<close> and
  without \<open>fa-eye\<close>), two successive calls complete and restore the type of the input and
  the class set of the icon.
\<close>

theorem toggle_twice_restores_toggle_states:
  assumes prev: "previousElementSibling p b = Some inp"
      and qry: "querySelector p b ''i'' = Some ico"
      and st: "(etype (elements p ! inp) = ''password''
                 \<and> ''fa-eye'' \<in> set (classList (elements p ! ico))
                 \<and> ''fa-eye-slash'' \<notin> set (classList (elements p ! ico)))
             \<or> (etype (elements p ! inp) = ''text''
                 \<and> ''fa-eye-slash'' \<in> set (classList (elements p ! ico))
                 \<and> ''fa-eye'' \<notin> set (classList (elements p ! ico)))"
  shows "\<exists>q. toggle_twice b p = Completed q
           \<and> etype (elements q ! inp) = etype (elements p ! inp)
           \<and> set (classList (elements q ! ico)) = set (classList (elements p ! ico))"
proof -
  from togglePassword_Completed [OF prev qry] obtain p1 where
    p1: "togglePassword b p = Completed p1"
        "previousElementSibling p1 b = Some inp"
        "querySelector p1 b ''i'' = Some ico"
        "etype (elements p1 ! inp) =
               (if etype (elements p ! inp) = ''password'' then ''text'' else ''password'')"
        "classList (elements p1 ! ico) =
               (if etype (elements p ! inp) = ''password''
                then classList_add ''fa-eye-slash'' (classList_remove ''fa-eye'' (classList (elements p ! ico)))
                else classList_add ''fa-eye'' (classList_remove ''fa-eye-slash'' (classList (elements p ! ico))))"
    by blast
  from togglePassword_Completed [OF p1(2) p1(3)] obtain p2 where
    p2: "togglePassword b p1 = Completed p2"
        "etype (elements p2 ! inp) =
               (if etype (elements p1 ! inp) = ''password'' then ''text'' else ''password'')"
        "classList (elements p2 ! ico) =
               (if etype (elements p1 ! inp) = ''password''
                then classList_add ''fa-eye-slash'' (classList_remove ''fa-eye'' (classList (elements p1 ! ico)))
                else classList_add ''fa-eye'' (classList_remove ''fa-eye-slash'' (classList (elements p1 ! ico))))"
    by blast
  have tw: "toggle_twice b p = Completed p2"
    by (simp add: toggle_twice_def p1(1) p2(1))
  from st show ?thesis
  proof
    assume a: "etype (elements p ! inp) = ''password''
                 \<and> ''fa-eye'' \<in> set (classList (elements p ! ico))
                 \<and> ''fa-eye-slash'' \<notin> set (classList (elements p ! ico))"
    then have "etype (elements p2 ! inp) = etype (elements p ! inp)"
      by (simp add: p2(2) p1(4))
    moreover from a have "set (classList (elements p2 ! ico)) = set (classList (elements p ! ico))"
      by (auto simp: p2(3) p1(4) p1(5) classList_add_def classList_remove_def)
    ultimately show ?thesis using tw by blast
  next
    assume a: "etype (elements p ! inp) = ''text''
                 \<and> ''fa-eye-slash'' \<in> set (classList (elements p ! ico))
                 \<and> ''fa-eye'' \<notin> set (classList (elements p ! ico))"
    then have "etype (elements p2 ! inp) = etype (elements p ! inp)"
      by (simp add: p2(2) p1(4))
    moreover from a have "set (classList (elements p2 ! ico)) = set (classList (elements p ! ico))"
      by (auto simp: p2(3) p1(4) p1(5) classList_add_def classList_remove_def)
    ultimately show ?thesis using tw by blast
  qed
qed

theorem toggle_twice_restores_toggle_states_witness:
  "\<exists>q. toggle_twice 2 (login_page ''password'' [''fas'', ''fa-eye'']) = Completed q
     \<and> etype (elements q ! 1) = etype (elements (login_page ''password'' [''fas'', ''fa-eye'']) ! 1)
     \<and> set (classList (elements q ! 3)) = set (classList (elements (login_page ''password'' [''fas'', ''fa-eye'']) ! 3))"
proof -
  have st: "(etype (elements (login_page ''password'' [''fas'', ''fa-eye'']) ! 1) = ''password''
                 \<and> ''fa-eye'' \<in> set (classList (elements (login_page ''password'' [''fas'', ''fa-eye'']) ! 3))
                 \<and> ''fa-eye-slash'' \<notin> set (classList (elements (login_page ''password'' [''fas'', ''fa-eye'']) ! 3)))
             \<or> (etype (elements (login_page ''password'' [''fas'', ''fa-eye'']) ! 1) = ''text''
                 \<and> ''fa-eye-slash'' \<in> set (classList (elements (login_page ''password'' [''fas'', ''fa-eye'']) ! 3))
                 \<and> ''fa-eye'' \<notin> set (classList (elements (login_page ''password'' [''fas'', ''fa-eye'']) ! 3)))"
    by (simp add: login_page_fields)
  from toggle_twice_restores_toggle_states [OF login_page_relations(1) login_page_relations(2) st]
  show ?thesis .
qed

text \<open>
  C9. \<open>togglePassword\<close> completes exactly when the button has a previous element sibling
  and contains an \<open>i\<close> element. When either is missing the call ends in a TypeError that
  is not caught: no alert is shown and nothing is written to the console.
\<close>

theorem togglePassword_throws_iff_markup_missing:
  "((\<exists>q. togglePassword button p = Completed q)
      = (previousElementSibling p button \<noteq> None \<and> querySelector p button ''i'' \<noteq> None))
   \<and> (previousElementSibling p button = None \<or> querySelector p button ''i'' = None \<longrightarrow>
        (\<exists>q. togglePassword button p = Uncaught TypeError q
            \<and> alerts q = alerts p \<and> console q = console p))"
  by (auto simp: togglePassword_def Let_def update_element_def split: option.splits)

theorem togglePassword_throws_iff_markup_missing_witness:
  "(\<exists>q. togglePassword 2 (login_page ''password'' [''fas'', ''fa-eye'']) = Completed q)
   \<and> (\<exists>q. togglePassword 1 (login_page ''password'' [''fas'', ''fa-eye'']) = Uncaught TypeError q
          \<and> alerts q = alerts (login_page ''password'' [''fas'', ''fa-eye''])
          \<and> console q = console (login_page ''password'' [''fas'', ''fa-eye'']))"
  using togglePassword_throws_iff_markup_missing [of 2 "login_page ''password'' [''fas'', ''fa-eye'']"]
    togglePassword_throws_iff_markup_missing [of 1 "login_page ''password'' [''fas'', ''fa-eye'']"]
    login_page_relations [of "''password''" "[''fas'', ''fa-eye'']"]
  by simp

section \<open>Properties of the upload zones\<close>

lemma formData_loop_eq:
  "formData_loop i fs formData = formData @ map (Pair ''file'') (drop i fs)"
proof (induction i fs formData rule: formData_loop.induct)
  case (1 i fs formData)
  show ?case
  proof (cases "i < length fs")
    case True
    then have "drop i fs = fs ! i # drop (Suc i) fs"
      by (simp add: Cons_nth_drop_Suc)
    with True "1" show ?thesis
      by (subst formData_loop.simps) simp
  next
    case False
    then show ?thesis by (subst formData_loop.simps) simp
  qed
qed

lemma requests_handleUpload:
  "requests (handleUpload fs url p) =
     requests p @ [\<lparr>req_url = url, req_method = ''POST'', req_body = map (Pair ''file'') fs\<rparr>]"
  by (simp add: handleUpload_def formData_loop_eq)

lemma dispatch_no_listener:
  "\<forall>l \<in> set (listeners p). reg_target l \<noteq> t \<Longrightarrow> dispatchEvent t ty e p = (e, p)"
proof -
  assume "\<forall>l \<in> set (listeners p). reg_target l \<noteq> t"
  then have "filter (\<lambda>l. reg_target l = t \<and> reg_type l = ty) (listeners p) = []"
    by (simp add: filter_empty_conv)
  then show ?thesis by (simp add: dispatchEvent_def)
qed

lemma listeners_setup:
  assumes "getElementById p z = Some dz" "getElementById p i = Some fi"
      "dataset_uploadUrl (elements p ! fi) = Some u" "u \<noteq> []"
  shows "setupDropZone z i p = p\<lparr>listeners := listeners p @
     [\<lparr>reg_target = dz, reg_type = ''click'', reg_listener = ZoneClick fi\<rparr>,
      \<lparr>reg_target = dz, reg_type = ''dragover'', reg_listener = ZoneDragover dz\<rparr>,
      \<lparr>reg_target = dz, reg_type = ''dragleave'', reg_listener = ZoneDragleave dz\<rparr>,
      \<lparr>reg_target = dz, reg_type = ''drop'', reg_listener = ZoneDrop dz fi u\<rparr>,
      \<lparr>reg_target = fi, reg_type = ''change'', reg_listener = InputChange fi u\<rparr>]\<rparr>"
  using assms by (simp add: setupDropZone_def addEventListener_def)

lemma drop_on_configured:
  assumes "getElementById p z = Some dz" "getElementById p i = Some fi"
      "dataset_uploadUrl (elements p ! fi) = Some u" "u \<noteq> []"
      "\<forall>l \<in> set (listeners p). reg_target l \<noteq> dz"
  shows "dispatchEvent dz ''drop'' e (setupDropZone z i p) =
           run_listener (ZoneDrop dz fi u) e (setupDropZone z i p)"
proof -
  from assms(5) have "filter (\<lambda>l. reg_target l = dz \<and> reg_type l = ''drop'') (listeners p) = []"
    by (simp add: filter_empty_conv)
  then show ?thesis
    by (simp add: listeners_setup [OF assms(1-4)] dispatchEvent_def)
qed

lemma setupDropZone_frame:
  "elements (setupDropZone z i p) = elements p"
  "requests (setupDropZone z i p) = requests p"
  "getElementById (setupDropZone z i p) j = getElementById p j"
  by (simp_all add: setupDropZone_def addEventListener_def getElementById_def split: option.splits)

lemma getElementById_upload_page:
  "getElementById upload_page ''file-drop-zone'' = Some 0"
  "getElementById upload_page ''file-input'' = Some 1"
  "getElementById upload_page ''video-drop-zone'' = Some 2"
  "getElementById upload_page ''video-input'' = Some 3"
  by (simp_all add: getElementById_def upload_page_def page0_def element0_def)

lemma upload_page_urls:
  "dataset_uploadUrl (elements upload_page ! 1) = Some ''/upload''"
  "dataset_uploadUrl (elements upload_page ! 3) = None"
  "listeners upload_page = []"
  by (simp_all add: upload_page_def page0_def element0_def)

text \<open>
  C1. On a zone that \<open>setupDropZone\<close> configured, a drop carrying the files \<open>[A, B]\<close>
  adds one request: a POST to the URL of the zone whose body is the two parts
  \<open>('file', A)\<close>, \<open>('file', B)\<close>, in that order. When the response body parses as JSON
  the page reloads once and no alert is shown; when \<open>fetch\<close> rejects or the body does not
  parse, exactly one alert is shown and the page does not reload.
\<close>

theorem drop_two_files_uploads_both:
  assumes "getElementById p zoneId = Some dropZone"
      and "getElementById p inputId = Some fileInput"
      and "dataset_uploadUrl (elements p ! fileInput) = Some uploadUrl"
      and "uploadUrl \<noteq> []"
      and "\<forall>l \<in> set (listeners p). reg_target l \<noteq> dropZone"
      and "dataTransfer_files e = [A, B]"
  shows "requests (snd (dispatchEvent dropZone ''drop'' e (setupDropZone zoneId inputId p))) =
           requests p @ [\<lparr>req_url = uploadUrl, req_method = ''POST'',
                          req_body = [(''file'', A), (''file'', B)]\<rparr>]
       \<and> (\<forall>q status data.
            reloads (handleUpload_settled (Response status (Some data)) q) = Suc (reloads q)
          \<and> alerts (handleUpload_settled (Response status (Some data)) q) = alerts q)
       \<and> (\<forall>q status.
            alerts (handleUpload_settled Rejected q) = alerts q @ [''An error occurred during upload.'']
          \<and> reloads (handleUpload_settled Rejected q) = reloads q
          \<and> alerts (handleUpload_settled (Response status None) q) =
              alerts q @ [''An error occurred during upload.'']
          \<and> reloads (handleUpload_settled (Response status None) q) = reloads q)"
proof -
  have "requests (snd (dispatchEvent dropZone ''drop'' e (setupDropZone zoneId inputId p))) =
          requests (setupDropZone zoneId inputId p) @
            [\<lparr>req_url = uploadUrl, req_method = ''POST'', req_body = [(''file'', A), (''file'', B)]\<rparr>]"
    using assms(6)
    by (simp add: drop_on_configured [OF assms(1-5)] Let_def requests_handleUpload update_element_def)
  moreover have "requests (setupDropZone zoneId inputId p) = requests p"
    by (simp add: listeners_setup [OF assms(1-4)])
  ultimately show ?thesis
    by (simp add: handleUpload_settled_def upload_success_def upload_error_def)
qed

theorem drop_two_files_uploads_both_witness:
  "requests (snd (dispatchEvent 0 ''drop'' (drop_event [File ''a.txt'', File ''b.txt''])
              (setupDropZone ''file-drop-zone'' ''file-input'' upload_page))) =
     requests upload_page @ [\<lparr>req_url = ''/upload'', req_method = ''POST'',
        req_body = [(''file'', File ''a.txt''), (''file'', File ''b.txt'')]\<rparr>]"
proof -
  have e: "dataTransfer_files (drop_event [File ''a.txt'', File ''b.txt'']) = [File ''a.txt'', File ''b.txt'']"
    by (simp add: drop_event_def)
  have l: "\<forall>l \<in> set (listeners upload_page). reg_target l \<noteq> 0"
    by (simp add: upload_page_urls)
  have u: "''/upload'' \<noteq> []" by simp
  from drop_two_files_uploads_both [OF getElementById_upload_page(1) getElementById_upload_page(2)
      upload_page_urls(1) u l e]
  show ?thesis by blast
qed

text \<open>
  C2. The upload ends with the alert and without a reload exactly when the promise chain
  rejects: \<open>fetch\<close> rejected, or the body did not parse as JSON. A response whose body
  parses as JSON reloads the page and shows no alert, whatever its status.
\<close>

theorem alert_iff_chain_rejects:
  "((alerts (handleUpload_settled r p) = alerts p @ [''An error occurred during upload.'']
       \<and> reloads (handleUpload_settled r p) = reloads p)
      = (r = Rejected \<or> (\<exists>status. r = Response status None)))
   \<and> (\<forall>status data. r = Response status (Some data) \<longrightarrow>
         reloads (handleUpload_settled r p) = Suc (reloads p)
       \<and> alerts (handleUpload_settled r p) = alerts p)"
  by (cases r)
    (auto simp: handleUpload_settled_def upload_error_def upload_success_def split: option.splits)

theorem alert_iff_chain_rejects_witness:
  "reloads (handleUpload_settled (Response 500 (Some ''{}'')) upload_page) = Suc (reloads upload_page)
   \<and> alerts (handleUpload_settled (Response 500 (Some ''{}'')) upload_page) = alerts upload_page"
  using alert_iff_chain_rejects [of "Response 500 (Some ''{}'')" upload_page] by blast

text \<open>
  C3. When the zone or the input is absent, or the input has no upload URL or an empty one,
  \<open>setupDropZone\<close> returns the page it was given: no listener is registered, and an event
  at an element that had no listener before still changes nothing.
\<close>

theorem unconfigured_zone_is_inert:
  assumes "getElementById p zoneId = None
         \<or> getElementById p inputId = None
         \<or> (\<exists>fileInput. getElementById p inputId = Some fileInput
              \<and> (dataset_uploadUrl (elements p ! fileInput) = None
                 \<or> dataset_uploadUrl (elements p ! fileInput) = Some []))"
  shows "setupDropZone zoneId inputId p = p
       \<and> listeners (setupDropZone zoneId inputId p) = listeners p
       \<and> (\<forall>t ty e. (\<forall>l \<in> set (listeners p). reg_target l \<noteq> t) \<longrightarrow>
            dispatchEvent t ty e (setupDropZone zoneId inputId p) = (e, p))"
proof -
  from assms have "setupDropZone zoneId inputId p = p"
    by (auto simp: setupDropZone_def split: option.splits)
  then show ?thesis by (simp add: dispatch_no_listener)
qed

theorem unconfigured_zone_is_inert_witness:
  "setupDropZone ''video-drop-zone'' ''video-input'' upload_page = upload_page
   \<and> dispatchEvent 2 ''drop'' (drop_event [File ''a.mp4''])
       (setupDropZone ''video-drop-zone'' ''video-input'' upload_page)
     = (drop_event [File ''a.mp4''], upload_page)"
proof -
  have h: "getElementById upload_page ''video-drop-zone'' = None
         \<or> getElementById upload_page ''video-input'' = None
         \<or> (\<exists>fileInput. getElementById upload_page ''video-input'' = Some fileInput
              \<and> (dataset_uploadUrl (elements upload_page ! fileInput) = None
                 \<or> dataset_uploadUrl (elements upload_page ! fileInput) = Some []))"
    by (simp add: getElementById_upload_page upload_page_urls)
  have l: "\<forall>l \<in> set (listeners upload_page). reg_target l \<noteq> 2"
    by (simp add: upload_page_urls)
  from unconfigured_zone_is_inert [OF h] l show ?thesis by blast
qed

text \<open>
  C10. On a configured zone, a drop that carries no file calls \<open>preventDefault\<close>, removes
  the class \<open>dragover\<close> from the zone and does nothing else: no request is issued and the
  file list of the input is the one it had.
\<close>

theorem empty_drop_uploads_nothing:
  assumes "getElementById p zoneId = Some dropZone"
      and "getElementById p inputId = Some fileInput"
      and "dataset_uploadUrl (elements p ! fileInput) = Some uploadUrl"
      and "uploadUrl \<noteq> []"
      and "\<forall>l \<in> set (listeners p). reg_target l \<noteq> dropZone"
      and "dataTransfer_files e = []"
  shows "dispatchEvent dropZone ''drop'' e (setupDropZone zoneId inputId p) =
           (e\<lparr>defaultPrevented := True\<rparr>,
            update_element dropZone
              (\<lambda>x. x\<lparr>classList := classList_remove ''dragover'' (classList x)\<rparr>)
              (setupDropZone zoneId inputId p))
       \<and> requests (snd (dispatchEvent dropZone ''drop'' e (setupDropZone zoneId inputId p)))
           = requests p
       \<and> files (elements (snd (dispatchEvent dropZone ''drop'' e (setupDropZone zoneId inputId p)))
                  ! fileInput)
           = files (elements p ! fileInput)"
proof -
  let ?s = "setupDropZone zoneId inputId p"
  have d: "dispatchEvent dropZone ''drop'' e ?s =
           (e\<lparr>defaultPrevented := True\<rparr>,
            update_element dropZone
              (\<lambda>x. x\<lparr>classList := classList_remove ''dragover'' (classList x)\<rparr>) ?s)"
    using assms(6) by (simp add: drop_on_configured [OF assms(1-5)] Let_def)
  have s: "requests ?s = requests p" "elements ?s = elements p"
    by (simp_all add: listeners_setup [OF assms(1-4)])
  from assms(2) have fi: "fileInput < length (elements p)"
    by (simp add: getElementById_SomeD)
  have r: "requests (update_element dropZone
              (\<lambda>x. x\<lparr>classList := classList_remove ''dragover'' (classList x)\<rparr>) ?s) = requests p"
    by (simp add: update_element_def s)
  have f: "files (elements (update_element dropZone
              (\<lambda>x. x\<lparr>classList := classList_remove ''dragover'' (classList x)\<rparr>) ?s) ! fileInput)
           = files (elements p ! fileInput)"
    using fi by (simp add: nth_update_element s)
  show ?thesis
    unfolding d using r f by simp
qed

theorem empty_drop_uploads_nothing_witness:
  "requests (snd (dispatchEvent 0 ''drop'' (drop_event [])
      (setupDropZone ''file-drop-zone'' ''file-input'' upload_page))) = requests upload_page
   \<and> files (elements (snd (dispatchEvent 0 ''drop'' (drop_event [])
      (setupDropZone ''file-drop-zone'' ''file-input'' upload_page))) ! 1)
      = files (elements upload_page ! 1)"
proof -
  have e: "dataTransfer_files (drop_event []) = []"
    by (simp add: drop_event_def)
  have l: "\<forall>l \<in> set (listeners upload_page). reg_target l \<noteq> 0"
    by (simp add: upload_page_urls)
  have u: "''/upload'' \<noteq> []" by simp
  from empty_drop_uploads_nothing [OF getElementById_upload_page(1) getElementById_upload_page(2)
      upload_page_urls(1) u l e]
  show ?thesis by blast
qed

text \<open>
  No listener writes to the list of listeners, so registrations made later for other
  targets or other event types do not change what an event does.
\<close>

lemma run_listener_listeners:
  "run_listener l e (p\<lparr>listeners := ls\<rparr>) =
     (fst (run_listener l e p), (snd (run_listener l e p))\<lparr>listeners := ls\<rparr>)"
  by (cases l) (simp_all add: update_element_def handleUpload_def Let_def)

lemma fold_run_listeners:
  "fold (\<lambda>l (e', p'). run_listener (reg_listener l) e' p') rs (e, p\<lparr>listeners := ls\<rparr>) =
     (fst (fold (\<lambda>l (e', p'). run_listener (reg_listener l) e' p') rs (e, p)),
      (snd (fold (\<lambda>l (e', p'). run_listener (reg_listener l) e' p') rs (e, p)))\<lparr>listeners := ls\<rparr>)"
proof (induction rs arbitrary: e p)
  case Nil
  show ?case by simp
next
  case (Cons r rs)
  obtain e1 p1 where s: "run_listener (reg_listener r) e p = (e1, p1)"
    by (cases "run_listener (reg_listener r) e p")
  then have "run_listener (reg_listener r) e (p\<lparr>listeners := ls\<rparr>) = (e1, p1\<lparr>listeners := ls\<rparr>)"
    by (simp add: run_listener_listeners)
  with s Cons.IH [of e1 p1] show ?case by simp
qed

lemma dispatch_later_registrations:
  assumes "\<forall>l \<in> set ls. \<not> (reg_target l = t \<and> reg_type l = ty)"
  shows "dispatchEvent t ty e (p\<lparr>listeners := listeners p @ ls\<rparr>) =
           (fst (dispatchEvent t ty e p),
            (snd (dispatchEvent t ty e p))\<lparr>listeners := listeners p @ ls\<rparr>)"
proof -
  from assms have "filter (\<lambda>l. reg_target l = t \<and> reg_type l = ty) ls = []"
    by (simp add: filter_empty_conv)
  then show ?thesis
    by (simp add: dispatchEvent_def fold_run_listeners)
qed

section \<open>Properties of rounding\<close>

lemma pow2_le_of_int:
  assumes "0 < a"
  shows "(2::rat) powi (bitlen a - 1) \<le> of_int a" and "of_int a < (2::rat) powi (bitlen a)"
proof -
  from assms have b1: "1 \<le> bitlen a" by (auto simp: bitlen_alt_def)
  from bitlen_bounds [OF assms] have lo: "2 ^ nat (bitlen a - 1) \<le> a" and hi: "a < 2 ^ nat (bitlen a)"
    by simp_all
  from lo have "(of_int (2 ^ nat (bitlen a - 1)) :: rat) \<le> of_int a"
    by (simp only: of_int_le_iff)
  with b1 show "(2::rat) powi (bitlen a - 1) \<le> of_int a"
    by (simp add: power_int_nonneg_exp)
  from hi have "(of_int a :: rat) < of_int (2 ^ nat (bitlen a))"
    by (simp only: of_int_less_iff)
  with b1 show "of_int a < (2::rat) powi (bitlen a)"
    by (simp add: power_int_nonneg_exp)
qed

lemma floor_log2_bounds:
  assumes "0 < x"
  shows "2 powi (floor_log2 x) \<le> x" and "x < 2 powi (floor_log2 x + 1)"
proof -
  obtain a b where q: "quotient_of x = (a, b)" by (cases "quotient_of x")
  then have b: "0 < b" and x: "x = of_int a / of_int b"
    by (auto dest: quotient_of_denom_pos quotient_of_div)
  from assms b x have a: "0 < a"
    by (simp add: zero_less_divide_iff)
  define d where "d = bitlen a - bitlen b"
  have bb: "(0::rat) < of_int b" using b by simp
  have "x < 2 powi (bitlen a) / 2 powi (bitlen b - 1)"
  proof -
    have "x < 2 powi (bitlen a) / of_int b"
      unfolding x using pow2_le_of_int(2) [OF a] bb by (simp add: divide_strict_right_mono)
    also have "\<dots> \<le> 2 powi (bitlen a) / 2 powi (bitlen b - 1)"
      using pow2_le_of_int(1) [OF b] bb by (intro divide_left_mono mult_pos_pos) simp_all
    finally show ?thesis .
  qed
  then have up: "x < 2 powi (d + 1)"
    by (simp add: d_def power_int_diff power_int_add)
  have "2 powi (bitlen a - 1) / 2 powi (bitlen b) < x"
  proof -
    have "2 powi (bitlen a - 1) / 2 powi (bitlen b) < (2::rat) powi (bitlen a - 1) / of_int b"
      using pow2_le_of_int(2) [OF b] bb by (intro divide_strict_left_mono) simp_all
    also have "\<dots> \<le> x"
      unfolding x using pow2_le_of_int(1) [OF a] bb by (simp add: divide_right_mono)
    finally show ?thesis .
  qed
  then have lo: "2 powi (d - 1) < x"
    by (simp add: d_def power_int_diff power_int_add)
  have fl: "floor_log2 x = (if 2 powi d \<le> x then d else d - 1)"
    by (simp add: floor_log2_def q d_def Let_def)
  show "2 powi (floor_log2 x) \<le> x"
    using lo by (simp add: fl)
  show "x < 2 powi (floor_log2 x + 1)"
    using up by (simp add: fl)
qed










lemma pow2_exp_less:
  assumes "(2::rat) powi m \<le> x" "x < 2 powi n"
  shows "m < n"
proof (rule ccontr)
  assume "\<not> m < n"
  then have "n \<le> m" by simp
  then have "(2::rat) powi n \<le> 2 powi m"
    by (intro power_int_increasing) simp_all
  with assms show False by simp
qed





lemma is_double_0: "is_double 0"
  by (simp add: is_double_def fp_round_def)

text \<open>
  Every number \<open>m * 2 powi e\<close> with a significand of at most 53 bits and an exponent
  of at least \<open>- 1074\<close> is a double.
\<close>

lemma is_double_representable:
  assumes m: "\<bar>m\<bar> < 2 ^ 53" and e: "- 1074 \<le> e"
  shows "is_double (of_int m * 2 powi e)"
proof (cases "m = 0")
  case True
  then show ?thesis by (simp add: is_double_0)
next
  case False
  define x :: rat where "x = of_int m * 2 powi e"
  have x0: "x \<noteq> 0" using False by (simp add: x_def)
  then have ax: "0 < \<bar>x\<bar>" by simp
  have "\<bar>x\<bar> = of_int \<bar>m\<bar> * 2 powi e"
    by (simp add: x_def abs_mult)
  also have "\<dots> < of_int (2 ^ 53) * 2 powi e"
    using m by (intro mult_strict_right_mono) (simp_all only: of_int_less_iff zero_less_power_int zero_less_numeral)
  also have "\<dots> = 2 powi (53 + e)"
    by (subst power_int_add) simp_all
  finally have "\<bar>x\<bar> < 2 powi (53 + e)" .
  from pow2_exp_less [OF floor_log2_bounds(1) [OF ax] this]
  have "floor_log2 \<bar>x\<bar> - 52 \<le> e" by simp
  define E where "E = max (floor_log2 \<bar>x\<bar> - 52) (- 1074)"
  have Ee: "E \<le> e" using \<open>floor_log2 \<bar>x\<bar> - 52 \<le> e\<close> e by (simp add: E_def)
  have u: "ulp x = 2 powi E" by (simp add: ulp_def E_def)
  have "(2::rat) powi e = 2 powi (e - E) * 2 powi E"
    by (simp flip: power_int_add)
  also from Ee have "(2::rat) powi (e - E) = of_int (2 ^ nat (e - E))"
    by (simp add: power_int_nonneg_exp)
  finally have xe: "x = of_int (m * 2 ^ nat (e - E)) * 2 powi E"
    by (simp add: x_def)
  have "x / ulp x = of_int (m * 2 ^ nat (e - E))"
    by (subst xe) (simp add: u)
  then have r: "round_half_even (x / ulp x) = m * 2 ^ nat (e - E)"
    by (simp only: round_half_even_def Let_def floor_of_int) simp
  have "fp_round x = of_int (round_half_even (x / ulp x)) * ulp x"
    using x0 by (simp add: fp_round_def)
  also have "\<dots> = of_int (m * 2 ^ nat (e - E)) * 2 powi E"
    by (subst r) (simp only: u)
  also have "\<dots> = x"
    by (rule xe [symmetric])
  finally show ?thesis by (simp add: is_double_def x_def)
qed











section \<open>Properties of the star background\<close>


lemma length_appendChild [simp]:
  "length (elements (appendChild r s p)) = length (elements p)"
  by (simp add: appendChild_def)



lemma star_loop_page:
  "sb < length (elements p) \<Longrightarrow>
   star_loop i n random sb p =
     p\<lparr>elements := (elements p)[sb := (elements p ! sb)
        \<lparr>appended := appended (elements p ! sb) @ map (\<lambda>j. createStar random (5 * j)) [i..<n]\<rparr>]\<rparr>"
proof (induction i n random sb p rule: star_loop.induct)
  case (1 i n random sb p)
  show ?case
  proof (cases "i < n")
    case True
    let ?p1 = "appendChild sb (createStar random (5 * i)) p"
    have l: "sb < length (elements ?p1)" using "1.prems" by simp
    have u: "[i..<n] = i # [Suc i..<n]"
      using True by (simp add: upt_conv_Cons)
    have "star_loop i n random sb p = star_loop (Suc i) n random sb ?p1"
      using True by (subst star_loop.simps) simp
    also note "1.IH" [OF True l]
    finally show ?thesis
      using "1.prems" by (simp add: u appendChild_def update_element_def)
  next
    case False
    then have "star_loop i n random sb p = p"
      by (subst star_loop.simps) simp
    with False "1.prems" show ?thesis
      by (simp add: list_update_same_conv)
  qed
qed

lemma star_background_frame:
  "listeners (star_background random p) = listeners p"
  "requests (star_background random p) = requests p"
  "getElementById (star_background random p) i = getElementById p i"
  "length (elements (star_background random p)) = length (elements p)"
  "dataset_uploadUrl (elements (star_background random p) ! k) = dataset_uploadUrl (elements p ! k)"
proof -
  show "listeners (star_background random p) = listeners p"
    by (simp add: star_background_def star_loop_page getElementById_SomeD split: option.splits)
  show "requests (star_background random p) = requests p"
    by (simp add: star_background_def star_loop_page getElementById_SomeD split: option.splits)
  show "length (elements (star_background random p)) = length (elements p)"
    by (simp add: star_background_def star_loop_page getElementById_SomeD split: option.splits)
  show "dataset_uploadUrl (elements (star_background random p) ! k) = dataset_uploadUrl (elements p ! k)"
    by (cases "k < length (elements p)")
      (auto simp: star_background_def star_loop_page nth_list_update dest!: getElementById_SomeD
        split: option.splits)
  have "map ident (elements (star_background random p)) = map ident (elements p)"
    by (auto simp: star_background_def star_loop_page map_update list_update_same_conv
        dest!: getElementById_SomeD split: option.splits)
  then show "getElementById (star_background random p) i = getElementById p i"
    by (rule getElementById_idents)
qed





section \<open>The three call sites of the page-ready handler\<close>

text \<open>
  The three zones have different ids, so they are different elements, and each ends the
  handler with the one drop listener its own call registered.
\<close>

lemma drop_listeners_other_zone:
  "getElementById p z \<noteq> Some t \<Longrightarrow> drop_listeners t (setupDropZone z i p) = drop_listeners t p"
  by (auto simp: drop_listeners_def setupDropZone_def addEventListener_def split: option.splits)

lemma drop_listeners_own_zone:
  assumes "getElementById p z = Some dz" "getElementById p i = Some fi"
      "dataset_uploadUrl (elements p ! fi) = Some u" "u \<noteq> []"
  shows "drop_listeners dz (setupDropZone z i p) =
           drop_listeners dz p @ [\<lparr>reg_target = dz, reg_type = ''drop'', reg_listener = ZoneDrop dz fi u\<rparr>]"
  by (simp add: drop_listeners_def listeners_setup [OF assms])

lemma getElementById_inj:
  "getElementById p a = Some t \<Longrightarrow> a \<noteq> b \<Longrightarrow> getElementById p b \<noteq> Some t"
  by (auto dest!: getElementById_SomeD)

lemma startup_drop_runs_zone_listener:
  assumes fresh: "listeners p = []"
      and site: "(zoneId, inputId) \<in> {(''file-drop-zone'', ''file-input''),
                    (''video-drop-zone'', ''video-input''), (''anime-drop-zone'', ''anime-input'')}"
      and z: "getElementById p zoneId = Some dropZone"
      and i: "getElementById p inputId = Some fileInput"
      and u: "dataset_uploadUrl (elements p ! fileInput) = Some uploadUrl" "uploadUrl \<noteq> []"
  shows "dispatchEvent dropZone ''drop'' e (DOMContentLoaded random p) =
           run_listener (ZoneDrop dropZone fileInput uploadUrl) e (DOMContentLoaded random p)"
proof -
  let ?p1 = "star_background random p"
  let ?p2 = "setupDropZone ''file-drop-zone'' ''file-input'' ?p1"
  let ?p3 = "setupDropZone ''video-drop-zone'' ''video-input'' ?p2"
  let ?p4 = "setupDropZone ''anime-drop-zone'' ''anime-input'' ?p3"
  have g: "\<And>j. getElementById ?p1 j = getElementById p j"
      "\<And>j. getElementById ?p2 j = getElementById p j"
      "\<And>j. getElementById ?p3 j = getElementById p j"
    by (simp_all add: setupDropZone_frame star_background_frame)
  have d: "\<And>k. dataset_uploadUrl (elements ?p1 ! k) = dataset_uploadUrl (elements p ! k)"
      "\<And>k. dataset_uploadUrl (elements ?p2 ! k) = dataset_uploadUrl (elements p ! k)"
      "\<And>k. dataset_uploadUrl (elements ?p3 ! k) = dataset_uploadUrl (elements p ! k)"
    by (simp_all add: setupDropZone_frame star_background_frame)
  have l1: "drop_listeners dropZone ?p1 = []"
    by (simp add: drop_listeners_def star_background_frame fresh)
  have "drop_listeners dropZone ?p4 =
          [\<lparr>reg_target = dropZone, reg_type = ''drop'',
            reg_listener = ZoneDrop dropZone fileInput uploadUrl\<rparr>]"
  proof -
    from site consider
        "zoneId = ''file-drop-zone''" "inputId = ''file-input''"
      | "zoneId = ''video-drop-zone''" "inputId = ''video-input''"
      | "zoneId = ''anime-drop-zone''" "inputId = ''anime-input''"
      by auto
    then show ?thesis
    proof cases
      case 1
      have "drop_listeners dropZone ?p2 = [\<lparr>reg_target = dropZone, reg_type = ''drop'',
            reg_listener = ZoneDrop dropZone fileInput uploadUrl\<rparr>]"
        using drop_listeners_own_zone [of ?p1 zoneId dropZone inputId fileInput uploadUrl] z i u l1 1
        by (simp add: g d)
      moreover have "getElementById ?p2 ''video-drop-zone'' \<noteq> Some dropZone"
        using z 1 by (simp add: g getElementById_inj)
      moreover have "getElementById ?p3 ''anime-drop-zone'' \<noteq> Some dropZone"
        using z 1 by (simp add: g getElementById_inj)
      ultimately show ?thesis by (simp add: drop_listeners_other_zone)
    next
      case 2
      have "getElementById ?p1 ''file-drop-zone'' \<noteq> Some dropZone"
        using z 2 by (simp add: g getElementById_inj)
      then have "drop_listeners dropZone ?p2 = []"
        by (simp add: drop_listeners_other_zone l1)
      then have "drop_listeners dropZone ?p3 = [\<lparr>reg_target = dropZone, reg_type = ''drop'',
            reg_listener = ZoneDrop dropZone fileInput uploadUrl\<rparr>]"
        using drop_listeners_own_zone [of ?p2 zoneId dropZone inputId fileInput uploadUrl] z i u 2
        by (simp add: g d)
      moreover have "getElementById ?p3 ''anime-drop-zone'' \<noteq> Some dropZone"
        using z 2 by (simp add: g getElementById_inj)
      ultimately show ?thesis by (simp add: drop_listeners_other_zone)
    next
      case 3
      have "getElementById ?p1 ''file-drop-zone'' \<noteq> Some dropZone"
        using z 3 by (simp add: g getElementById_inj)
      then have "drop_listeners dropZone ?p2 = []"
        by (simp add: drop_listeners_other_zone l1)
      moreover have "getElementById ?p2 ''video-drop-zone'' \<noteq> Some dropZone"
        using z 3 by (simp add: g getElementById_inj)
      ultimately have "drop_listeners dropZone ?p3 = []"
        by (simp add: drop_listeners_other_zone)
      then show ?thesis
        using drop_listeners_own_zone [of ?p3 zoneId dropZone inputId fileInput uploadUrl] z i u 3
        by (simp add: g d)
    qed
  qed
  then show ?thesis
    by (simp add: dispatchEvent_def DOMContentLoaded_def drop_listeners_def)
qed

lemma startup_drop_two_files:
  assumes "listeners p = []"
      and "(zoneId, inputId) \<in> {(''file-drop-zone'', ''file-input''),
                    (''video-drop-zone'', ''video-input''), (''anime-drop-zone'', ''anime-input'')}"
      and "getElementById p zoneId = Some dropZone"
      and "getElementById p inputId = Some fileInput"
      and "dataset_uploadUrl (elements p ! fileInput) = Some uploadUrl" "uploadUrl \<noteq> []"
      and "dataTransfer_files e = [A, B]"
  shows "requests (snd (dispatchEvent dropZone ''drop'' e (DOMContentLoaded random p))) =
           requests p @ [\<lparr>req_url = uploadUrl, req_method = ''POST'',
                          req_body = [(''file'', A), (''file'', B)]\<rparr>]"
proof -
  have "requests (DOMContentLoaded random p) = requests p"
    by (simp add: DOMContentLoaded_def setupDropZone_frame star_background_frame)
  with assms(7) show ?thesis
    by (simp add: startup_drop_runs_zone_listener [OF assms(1-6)] Let_def requests_handleUpload
        update_element_def)
qed

end
